theory Spec2Isabelle
  imports Complex_Main "HOL-Library.Sublist"
begin

section \<open>The statistics updater of YNWA Cards (stats-updater.js)\<close>

text \<open>
  A shallow embedding of class \<open>SoccerStatsManager\<close>. JavaScript values are typed the way
  the API-Football feed delivers them: a leaf property is absent (\<open>undefined\<close>), \<open>null\<close> or a
  value of its type; a nested object is present or not (reading a property of \<open>undefined\<close>
  or \<open>null\<close> throws a \<open>TypeError\<close>, which the model returns as a value). Counts are
  integers; JavaScript numbers are doubles, which represent every integer of magnitude
  below \<open>2^53\<close> exactly, and the model is exact in that range.
\<close>

subsection \<open>Values and errors\<close>

datatype 'a jsfield = Undefined | Null | Val 'a

datatype js_error = TypeError | NetworkError | ApiError nat | SyntaxError | StorageError

text \<open>\<open>x || d\<close> on a numeric leaf: \<open>undefined\<close>, \<open>null\<close> and \<open>0\<close> are falsy.\<close>

fun orElse :: "int jsfield \<Rightarrow> int \<Rightarrow> int" where
  "orElse (Val n) d = (if n = 0 then d else n)"
| "orElse Undefined d = d"
| "orElse Null d = d"

subsection \<open>CONFIG\<close>

record config =
  API_KEY :: string
  LEAGUES :: "(string \<times> int) list"
  SEASON :: int
  CACHE_DURATION :: int
  TOP_PLAYERS_COUNT :: nat

definition CONFIG :: config where
  "CONFIG = \<lparr> API_KEY = ''YOUR_API_KEY_HERE'',
              LEAGUES = [(''PREMIER_LEAGUE'', 39), (''LA_LIGA'', 140)],
              SEASON = 2025,
              CACHE_DURATION = 24 * 60 * 60 * 1000,
              TOP_PLAYERS_COUNT = 10 \<rparr>"

subsection \<open>Raw feed entries\<close>

record player_blk =
  player_id :: "int jsfield"
  player_name :: "string jsfield"
  player_photo :: "string jsfield"

record team_blk =
  team_name :: "string jsfield"

record games_blk =
  games_position :: "string jsfield"
  games_appearences :: "int jsfield"
  games_rating :: "string jsfield"

record goals_blk =
  goals_total :: "int jsfield"
  goals_assists :: "int jsfield"

record stats_blk =
  stats_team :: "team_blk option"
  stats_games :: "games_blk option"
  stats_goals :: "goals_blk option"

text \<open>
  \<open>item.player\<close> and \<open>item.statistics\<close> may be missing; an element of the statistics array may
  be \<open>null\<close> (\<open>None\<close>).
\<close>

record item =
  item_player :: "player_blk option"
  item_statistics :: "stats_blk option list option"

text \<open>\<open>arr[0]\<close>: \<open>undefined\<close> on an empty array.\<close>

fun first :: "'a option list \<Rightarrow> 'a option" where
  "first [] = None"
| "first (x # xs) = x"

subsection \<open>Player records\<close>

text \<open>
  \<open>rating\<close> is \<open>parseFloat\<close> of the feed's rating string, kept symbolic, or the number \<open>0\<close>.
\<close>

datatype rating_val = RatingZero | ParseFloat string

record playerData =
  pid :: "int jsfield"
  name :: "string jsfield"
  photo :: "string jsfield"
  team :: "string jsfield"
  league :: string
  position :: "string jsfield"
  goals :: int
  assists :: int
  appearances :: int
  rating :: rating_val

text \<open>\<open>goalsPerGame\<close> is the number \<open>0\<close> or the string \<open>toFixed(2)\<close> returns.\<close>

datatype gpg_val = GNum int | GStr string

record player = playerData +
  goalsAndAssists :: int
  goalsPerGame :: gpg_val

subsection \<open>The Map \<open>allPlayers\<close>\<close>

text \<open>
  A JavaScript \<open>Map\<close> iterates in insertion order, and \<open>set\<close> on a key that is present keeps
  the key's place: an association list with distinct keys.
\<close>

type_synonym player_map = "(int jsfield \<times> playerData) list"

definition map_get :: "player_map \<Rightarrow> int jsfield \<Rightarrow> playerData option" where
  "map_get m k = map_of m k"

definition map_has :: "player_map \<Rightarrow> int jsfield \<Rightarrow> bool" where
  "map_has m k = (map_get m k \<noteq> None)"

fun map_set :: "player_map \<Rightarrow> int jsfield \<Rightarrow> playerData \<Rightarrow> player_map" where
  "map_set [] k v = [(k, v)]"
| "map_set ((k', v') # m) k v = (if k' = k then (k, v) # m else (k', v') # map_set m k v)"

definition map_values :: "player_map \<Rightarrow> playerData list" where
  "map_values m = map snd m"

definition map_keys :: "player_map \<Rightarrow> int jsfield list" where
  "map_keys m = map fst m"

subsection \<open>Loops that a throw leaves\<close>

fun forEach :: "('s \<Rightarrow> 'a \<Rightarrow> js_error + 's) \<Rightarrow> 's \<Rightarrow> 'a list \<Rightarrow> js_error + 's" where
  "forEach f s [] = Inr s"
| "forEach f s (x # xs) = (case f s x of Inl e \<Rightarrow> Inl e | Inr s' \<Rightarrow> forEach f s' xs)"

subsection \<open>The merge of one league's feeds (the body of the loop in getAllPlayers)\<close>

text \<open>\<open>leagueName.replace('_', ' ')\<close> replaces the first underscore only.\<close>

fun replace_first :: "char \<Rightarrow> char \<Rightarrow> string \<Rightarrow> string" where
  "replace_first a b [] = []"
| "replace_first a b (c # cs) = (if c = a then b # cs else c # replace_first a b cs)"

fun ratingOf :: "string jsfield \<Rightarrow> rating_val" where
  "ratingOf (Val s) = (if s = [] then RatingZero else ParseFloat s)"
| "ratingOf Undefined = RatingZero"
| "ratingOf Null = RatingZero"

text \<open>
  The callback of \<open>scorers.forEach\<close>. \<open>item.player.id\<close> and \<open>item.statistics[0]\<close> are read
  before the test \<open>allPlayers.has(playerId)\<close>; the statistics block is read inside it.
\<close>

definition processScorer :: "string \<Rightarrow> player_map \<Rightarrow> item \<Rightarrow> js_error + player_map" where
  "processScorer leagueName allPlayers it =
     (case item_player it of
        None \<Rightarrow> Inl TypeError
      | Some pl \<Rightarrow>
          (case item_statistics it of
             None \<Rightarrow> Inl TypeError
           | Some sts \<Rightarrow>
               if map_has allPlayers (player_id pl) then Inr allPlayers
               else
                 (case first sts of
                    None \<Rightarrow> Inl TypeError
                  | Some stats \<Rightarrow>
                      (case stats_team stats of
                         None \<Rightarrow> Inl TypeError
                       | Some tm \<Rightarrow>
                           (case stats_games stats of
                              None \<Rightarrow> Inl TypeError
                            | Some gm \<Rightarrow>
                                (case stats_goals stats of
                                   None \<Rightarrow> Inl TypeError
                                 | Some gl \<Rightarrow>
                                     Inr (map_set allPlayers (player_id pl)
                                       \<lparr> pid = player_id pl,
                                         name = player_name pl,
                                         photo = player_photo pl,
                                         team = team_name tm,
                                         league = replace_first (CHR ''_'') (CHR '' '') leagueName,
                                         position = games_position gm,
                                         goals = orElse (goals_total gl) 0,
                                         assists = orElse (goals_assists gl) 0,
                                         appearances = orElse (games_appearences gm) 0,
                                         rating = ratingOf (games_rating gm) \<rparr>)))))))"

text \<open>
  The callback of \<open>assists.forEach\<close>: the statistics are read only for a player that is in
  the map, and only the \<open>assists\<close> property of the stored object is assigned.
\<close>

definition processAssist :: "player_map \<Rightarrow> item \<Rightarrow> js_error + player_map" where
  "processAssist allPlayers it =
     (case item_player it of
        None \<Rightarrow> Inl TypeError
      | Some pl \<Rightarrow>
          (case map_get allPlayers (player_id pl) of
             None \<Rightarrow> Inr allPlayers
           | Some playerData \<Rightarrow>
               (case item_statistics it of
                  None \<Rightarrow> Inl TypeError
                | Some sts \<Rightarrow>
                    (case first sts of
                       None \<Rightarrow> Inl TypeError
                     | Some stats \<Rightarrow>
                         (case stats_goals stats of
                            None \<Rightarrow> Inl TypeError
                          | Some gl \<Rightarrow>
                              Inr (map_set allPlayers (player_id pl)
                                (playerData\<lparr> assists :=
                                   orElse (goals_assists gl) (assists playerData) \<rparr>)))))))"

text \<open>
  \<open>scorers\<close> and \<open>assistFeed\<close> (the source's \<open>assists\<close>) are what the feed client returned: an array, or \<open>undefined\<close>
  (\<open>None\<close>) when the reply had no \<open>response\<close> property, on which \<open>forEach\<close> throws.
\<close>

definition mergeLeague ::
  "string \<Rightarrow> player_map \<Rightarrow> item list option \<Rightarrow> item list option \<Rightarrow> js_error + player_map" where
  "mergeLeague leagueName allPlayers scorers assistFeed =
     (case scorers of
        None \<Rightarrow> Inl TypeError
      | Some sc \<Rightarrow>
          (case forEach (processScorer leagueName) allPlayers sc of
             Inl e \<Rightarrow> Inl e
           | Inr m \<Rightarrow>
               (case assistFeed of
                  None \<Rightarrow> Inl TypeError
                | Some asts \<Rightarrow> forEach processAssist m asts)))"

subsection \<open>The feed client: fetchFromAPI, getTopScorers, getTopAssists\<close>

text \<open>
  The network is a function from the request to what \<open>fetch\<close> and \<open>response.json()\<close> do:
  \<open>fetch\<close> rejects, or answers with a status and a body; the body is not JSON (or is the
  JSON \<open>null\<close>, whose \<open>response\<close> property cannot be read), or is an object whose \<open>response\<close>
  property is an array of entries or is missing.
\<close>

record request =
  req_endpoint :: string
  req_league :: int
  req_season :: int
  req_key :: string

datatype body = BadJSON | JSON "item list option"

datatype http_result = Rejected | Response nat body

type_synonym network = "request \<Rightarrow> http_result"

definition fetchFromAPI ::
  "config \<Rightarrow> network \<Rightarrow> string \<Rightarrow> int \<Rightarrow> js_error + item list option" where
  "fetchFromAPI cfg net endpoint leagueId =
     (case net \<lparr> req_endpoint = endpoint, req_league = leagueId,
                 req_season = SEASON cfg, req_key = API_KEY cfg \<rparr> of
        Rejected \<Rightarrow> Inl NetworkError
      | Response status b \<Rightarrow>
          if \<not> (200 \<le> status \<and> status \<le> 299) then Inl (ApiError status)
          else (case b of BadJSON \<Rightarrow> Inl SyntaxError | JSON r \<Rightarrow> Inr r))"

definition getTopScorers :: "config \<Rightarrow> network \<Rightarrow> int \<Rightarrow> item list option" where
  "getTopScorers cfg net leagueId =
     (case fetchFromAPI cfg net ''players/topscorers'' leagueId of
        Inr data \<Rightarrow> data
      | Inl e \<Rightarrow> Some [])"

definition getTopAssists :: "config \<Rightarrow> network \<Rightarrow> int \<Rightarrow> item list option" where
  "getTopAssists cfg net leagueId =
     (case fetchFromAPI cfg net ''players/topassists'' leagueId of
        Inr data \<Rightarrow> data
      | Inl e \<Rightarrow> Some [])"

text \<open>One round of the loop over \<open>Object.entries(CONFIG.LEAGUES)\<close>.\<close>

definition processLeague ::
  "config \<Rightarrow> network \<Rightarrow> player_map \<Rightarrow> string \<times> int \<Rightarrow> js_error + player_map" where
  "processLeague cfg net allPlayers entry =
     (case entry of (leagueName, leagueId) \<Rightarrow>
        mergeLeague leagueName allPlayers
          (getTopScorers cfg net leagueId) (getTopAssists cfg net leagueId))"

definition aggregate :: "config \<Rightarrow> network \<Rightarrow> (string \<times> int) list \<Rightarrow> js_error + player_map" where
  "aggregate cfg net leagues = forEach (processLeague cfg net) [] leagues"

subsection \<open>Numbers: the division and toFixed(2) behind goalsPerGame\<close>

text \<open>
  \<open>x / y\<close> on doubles is the quotient rounded to the nearest number with a 53-bit
  significand, ties to the even significand (IEEE 754 binary64). For integers \<open>x\<close>, \<open>y\<close> with
  \<open>0 < x < 2^53\<close> and \<open>0 < y < 2^53\<close> the shift \<open>s\<close> below is the least one that brings
  \<open>x * 2^s / y\<close> to \<open>2^52\<close> or above (\<open>divPos_significand\<close>), and the result is the rounded
  significand over \<open>2^s\<close>; the values are far from the subnormal and the overflow range.
\<close>

fun bitlen :: "nat \<Rightarrow> nat" where
  "bitlen n = (if n = 0 then 0 else Suc (bitlen (n div 2)))"

declare bitlen.simps [simp del]

definition roundTiesToEven :: "int \<Rightarrow> int \<Rightarrow> int" where
  "roundTiesToEven n d =
     (let q = n div d; r = n mod d
      in if 2 * r < d then q else if d < 2 * r then q + 1 else if even q then q else q + 1)"

definition divPos :: "int \<Rightarrow> int \<Rightarrow> rat" where
  "divPos x y =
     (let s0 = bitlen (nat y) + 52 - bitlen (nat x);
          s = (if y * 2 ^ 52 \<le> x * 2 ^ s0 then s0 else Suc s0)
      in of_int (roundTiesToEven (x * 2 ^ s) y) / 2 ^ s)"

definition numDiv :: "int \<Rightarrow> int \<Rightarrow> rat" where
  "numDiv x y = (if x = 0 then 0 else if x < 0 then - divPos (- x) y else divPos x y)"

fun digits :: "nat \<Rightarrow> string" where
  "digits n =
     (if n < 10 then [''0123456789'' ! n]
      else digits (n div 10) @ [''0123456789'' ! (n mod 10)])"

declare digits.simps [simp del]

text \<open>
  \<open>Number.prototype.toFixed\<close> with two fraction digits, for a magnitude below \<open>10^21\<close>:
  the sign, then the integer \<open>n\<close> for which \<open>n / 100\<close> is closest to the magnitude (the larger
  \<open>n\<close> when two are as close), written with at least three digits and a point before the
  last two.
\<close>

definition hundredths :: "rat \<Rightarrow> nat" where
  "hundredths x = nat \<lfloor>\<bar>x\<bar> * 100 + 1 / 2\<rfloor>"

definition fixed2 :: "nat \<Rightarrow> string" where
  "fixed2 n =
     (let m0 = digits n;
          m = (if length m0 \<le> 2 then replicate (3 - length m0) (CHR ''0'') @ m0 else m0);
          k = length m
      in take (k - 2) m @ ''.'' @ drop (k - 2) m)"

definition toFixed2 :: "rat \<Rightarrow> string" where
  "toFixed2 x = (if x < 0 then ''-'' else []) @ fixed2 (hundredths x)"

subsection \<open>The derived fields, the sort and the cut (the end of getAllPlayers)\<close>

definition withCombined :: "playerData \<Rightarrow> player" where
  "withCombined p =
     \<lparr> pid = pid p, name = name p, photo = photo p, team = team p, league = league p,
       position = position p, goals = goals p, assists = assists p,
       appearances = appearances p, rating = rating p,
       goalsAndAssists = goals p + assists p,
       goalsPerGame =
         (if appearances p > 0 then GStr (toFixed2 (numDiv (goals p) (appearances p)))
          else GNum 0) \<rparr>"

definition compareFn :: "player \<Rightarrow> player \<Rightarrow> int" where
  "compareFn a b = goalsAndAssists b - goalsAndAssists a"

text \<open>
  \<open>Array.prototype.sort\<close> is stable, and with a consistent comparator its result is sorted:
  a stable insertion sort. An element goes before \<open>y\<close> when the comparator does not put
  \<open>y\<close> first.
\<close>

fun insert_cmp :: "('a \<Rightarrow> 'a \<Rightarrow> int) \<Rightarrow> 'a \<Rightarrow> 'a list \<Rightarrow> 'a list" where
  "insert_cmp cmp x [] = [x]"
| "insert_cmp cmp x (y # ys) = (if cmp x y \<le> 0 then x # y # ys else y # insert_cmp cmp x ys)"

definition sort_cmp :: "('a \<Rightarrow> 'a \<Rightarrow> int) \<Rightarrow> 'a list \<Rightarrow> 'a list" where
  "sort_cmp cmp xs = foldr (insert_cmp cmp) xs []"

definition rank :: "config \<Rightarrow> player_map \<Rightarrow> player list" where
  "rank cfg allPlayers =
     (let playersArray = map withCombined (map_values allPlayers);
          sorted = sort_cmp compareFn playersArray
      in take (TOP_PLAYERS_COUNT cfg) sorted)"

subsection \<open>The cache: loadCache and saveCache over localStorage\<close>

record cacheData =
  timestamp :: int
  players :: "player list option"

text \<open>
  What is stored under \<open>ynwa_stats_cache\<close>, by what \<open>JSON.parse\<close> makes of it: the empty
  string; a text that is not JSON; the JSON \<open>null\<close>; a JSON value with no numeric
  \<open>timestamp\<close>; or a snapshot, whose \<open>players\<close> may be missing. A stored text stands for the
  value it parses to.
\<close>

datatype stored = EmptyString | Malformed | JsonNull | NoTimestamp | Snapshot cacheData

text \<open>
  \<open>ls_throws\<close>: every access to \<open>localStorage\<close> throws (storage denied);
  \<open>ls_full\<close>: \<open>setItem\<close> throws (quota exceeded).
\<close>

record localStorage =
  ls_item :: "stored option"
  ls_throws :: bool
  ls_full :: bool

definition loadCache :: "config \<Rightarrow> int \<Rightarrow> localStorage \<Rightarrow> cacheData option" where
  "loadCache cfg now ls =
     (if ls_throws ls then None
      else
        (case ls_item ls of
           None \<Rightarrow> None
         | Some EmptyString \<Rightarrow> None
         | Some Malformed \<Rightarrow> None
         | Some JsonNull \<Rightarrow> None
         | Some NoTimestamp \<Rightarrow> None
         | Some (Snapshot d) \<Rightarrow>
             if now - timestamp d < CACHE_DURATION cfg then Some d else None))"

definition saveCache :: "int \<Rightarrow> player list \<Rightarrow> localStorage \<Rightarrow> localStorage" where
  "saveCache now d ls =
     (if ls_throws ls \<or> ls_full ls then ls
      else ls\<lparr> ls_item := Some (Snapshot \<lparr> timestamp = now, players = Some d \<rparr>) \<rparr>)"

subsection \<open>The manager: constructor, getAllPlayers, initialize and the refresh button\<close>

record manager =
  apiBase :: string
  cache :: "cacheData option"

definition newManager :: "config \<Rightarrow> int \<Rightarrow> localStorage \<Rightarrow> manager" where
  "newManager cfg now ls =
     \<lparr> apiBase = ''https://v3.football.api-sports.io'', cache = loadCache cfg now ls \<rparr>"

text \<open>\<open>this.cache && this.cache.players\<close>: an array is truthy, also the empty one.\<close>

definition cachedPlayers :: "manager \<Rightarrow> player list option" where
  "cachedPlayers mgr = (case cache mgr of None \<Rightarrow> None | Some d \<Rightarrow> players d)"

text \<open>
  \<open>getAllPlayers\<close> returns the players or the error it throws, and the storage it leaves.
  \<open>now\<close> is the clock at \<open>saveCache\<close>.
\<close>

definition getAllPlayers ::
  "config \<Rightarrow> manager \<Rightarrow> network \<Rightarrow> int \<Rightarrow> localStorage
     \<Rightarrow> (js_error + player list) \<times> localStorage" where
  "getAllPlayers cfg mgr net now ls =
     (case cachedPlayers mgr of
        Some ps \<Rightarrow> (Inr ps, ls)
      | None \<Rightarrow>
          (case aggregate cfg net (LEAGUES cfg) of
             Inl e \<Rightarrow> (Inl e, ls)
           | Inr allPlayers \<Rightarrow>
               (let topPlayers = rank cfg allPlayers
                in (Inr topPlayers, saveCache now topPlayers ls))))"

text \<open>
  The page is the content of the element \<open>.player-grid\<close>, or \<open>None\<close> when the document has
  none. The cards, the timestamp line and their markup are the presentation's.
\<close>

datatype grid = StaticCards | Cards "player list" | APIKeyWarning | ErrorMessage

type_synonym page = "grid option"

definition updateWebsite :: "player list \<Rightarrow> page \<Rightarrow> page" where
  "updateWebsite ps pg = (case pg of None \<Rightarrow> None | Some g \<Rightarrow> Some (Cards ps))"

definition showAPIKeyWarning :: "page \<Rightarrow> page" where
  "showAPIKeyWarning pg = (case pg of None \<Rightarrow> None | Some g \<Rightarrow> Some APIKeyWarning)"

definition showError :: "page \<Rightarrow> page" where
  "showError pg = (case pg of None \<Rightarrow> None | Some g \<Rightarrow> Some ErrorMessage)"

definition initialize ::
  "config \<Rightarrow> manager \<Rightarrow> network \<Rightarrow> int \<Rightarrow> localStorage \<Rightarrow> page \<Rightarrow> page \<times> localStorage" where
  "initialize cfg mgr net now ls pg =
     (if API_KEY cfg = ''57f67398e65a9dd967d70fe6ecfd76df'' then (showAPIKeyWarning pg, ls)
      else
        (case getAllPlayers cfg mgr net now ls of
           (Inr ps, ls') \<Rightarrow> (updateWebsite ps pg, ls')
         | (Inl e, ls') \<Rightarrow> (showError pg, ls')))"

text \<open>
  The click handler of the refresh button: \<open>localStorage.removeItem\<close>, \<open>this.cache = null\<close>,
  then \<open>initialize\<close>. When the storage throws, the handler ends there.
\<close>

definition invalidate :: "manager \<Rightarrow> localStorage \<Rightarrow> js_error + manager \<times> localStorage" where
  "invalidate mgr ls =
     (if ls_throws ls then Inl StorageError
      else Inr (mgr\<lparr> cache := None \<rparr>, ls\<lparr> ls_item := None \<rparr>))"

definition refreshClick ::
  "config \<Rightarrow> manager \<Rightarrow> network \<Rightarrow> int \<Rightarrow> localStorage \<Rightarrow> page
     \<Rightarrow> manager \<times> page \<times> localStorage" where
  "refreshClick cfg mgr net now ls pg =
     (case invalidate mgr ls of
        Inl e \<Rightarrow> (mgr, pg, ls)
      | Inr (mgr', ls') \<Rightarrow>
          (case initialize cfg mgr' net now ls' pg of (pg', ls'') \<Rightarrow> (mgr', pg', ls'')))"

subsection \<open>The player identifiers of a feed\<close>

text \<open>\<open>item.player.id\<close> of the entries that have a player block, in feed order.\<close>

definition playerId :: "item \<Rightarrow> int jsfield option" where
  "playerId it = map_option player_id (item_player it)"

definition feedIds :: "item list \<Rightarrow> int jsfield list" where
  "feedIds feed = List.map_filter playerId feed"

text \<open>
  \<open>item.statistics[0].goals.assists\<close> where it can be read (the callbacks throw where it
  cannot), and the value the assist pass leaves in \<open>assists\<close> of player \<open>k\<close>: each entry of
  \<open>k\<close> assigns \<open>stats.goals.assists || playerData.assists\<close>.
\<close>

definition assistsOf :: "item \<Rightarrow> int jsfield" where
  "assistsOf it =
     (case item_statistics it of
        None \<Rightarrow> Undefined
      | Some sts \<Rightarrow>
          (case first sts of
             None \<Rightarrow> Undefined
           | Some stats \<Rightarrow>
               (case stats_goals stats of None \<Rightarrow> Undefined | Some gl \<Rightarrow> goals_assists gl)))"

fun lastAssists :: "int jsfield \<Rightarrow> item list \<Rightarrow> int \<Rightarrow> int" where
  "lastAssists k [] d = d"
| "lastAssists k (it # feed) d =
     lastAssists k feed (if playerId it = Some k then orElse (assistsOf it) d else d)"

text \<open>
  The blocks the callbacks read: a scorer entry is complete when it has the player block
  and a first statistics block with its team, games and goals parts; an assist entry when
  it has the player block and a first statistics block with its goals part.
\<close>

definition scorerComplete :: "item \<Rightarrow> bool" where
  "scorerComplete it =
     (case (item_player it, item_statistics it) of
        (Some pl, Some (Some stats # rest)) \<Rightarrow>
          stats_team stats \<noteq> None \<and> stats_games stats \<noteq> None \<and> stats_goals stats \<noteq> None
      | _ \<Rightarrow> False)"

definition assistComplete :: "item \<Rightarrow> bool" where
  "assistComplete it =
     (case (item_player it, item_statistics it) of
        (Some pl, Some (Some stats # rest)) \<Rightarrow> stats_goals stats \<noteq> None
      | _ \<Rightarrow> False)"

subsection \<open>Example feeds\<close>

text \<open>
  Entries in the shape of the feed: a scorer entry with identifier, goals, assists and
  appearances; an assist entry with identifier and assists; an entry whose statistics
  array is empty.
\<close>

definition scorerEntry :: "int \<Rightarrow> int \<Rightarrow> int \<Rightarrow> int \<Rightarrow> item" where
  "scorerEntry i g a n =
     \<lparr> item_player = Some \<lparr> player_id = Val i, player_name = Undefined, player_photo = Undefined \<rparr>,
       item_statistics = Some [Some
         \<lparr> stats_team = Some \<lparr> team_name = Undefined \<rparr>,
           stats_games = Some \<lparr> games_position = Undefined, games_appearences = Val n,
                               games_rating = Null \<rparr>,
           stats_goals = Some \<lparr> goals_total = Val g, goals_assists = Val a \<rparr> \<rparr>] \<rparr>"

definition assistEntry :: "int \<Rightarrow> int \<Rightarrow> item" where
  "assistEntry i a =
     \<lparr> item_player = Some \<lparr> player_id = Val i, player_name = Undefined, player_photo = Undefined \<rparr>,
       item_statistics = Some [Some
         \<lparr> stats_team = None, stats_games = None,
           stats_goals = Some \<lparr> goals_total = Undefined, goals_assists = Val a \<rparr> \<rparr>] \<rparr>"

definition emptyStatsEntry :: "int \<Rightarrow> item" where
  "emptyStatsEntry i =
     \<lparr> item_player = Some \<lparr> player_id = Val i, player_name = Undefined, player_photo = Undefined \<rparr>,
       item_statistics = Some [] \<rparr>"

definition exScorers :: "item list" where
  "exScorers = [scorerEntry 1 10 2 20, scorerEntry 2 8 1 20]"

definition exAssists :: "item list" where
  "exAssists = [assistEntry 1 5, assistEntry 3 9]"

text \<open>The record a scorer entry of the examples is stored as.\<close>

definition exRecord :: "string \<Rightarrow> int \<Rightarrow> int \<Rightarrow> int \<Rightarrow> int \<Rightarrow> playerData" where
  "exRecord lg i g a n =
     \<lparr> pid = Val i, name = Undefined, photo = Undefined, team = Undefined, league = lg,
       position = Undefined, goals = g, assists = a, appearances = n, rating = RatingZero \<rparr>"

text \<open>A network that answers every request with status 200 and the feed of the league.\<close>

definition feedNet :: "(int \<Rightarrow> item list) \<Rightarrow> (int \<Rightarrow> item list) \<Rightarrow> network" where
  "feedNet sc asts req =
     Response 200 (JSON (Some
       (if req_endpoint req = ''players/topscorers'' then sc (req_league req)
        else asts (req_league req))))"

text \<open>Two leagues that both list player 7, the second one also in its assist feed.\<close>

definition exNetTwo :: network where
  "exNetTwo =
     feedNet (\<lambda>l. if l = 39 then [scorerEntry 7 10 2 20] else [scorerEntry 7 5 1 10])
             (\<lambda>l. if l = 39 then [] else [assistEntry 7 9])"

text \<open>Three stored players with combined scores 4, 9 and 4.\<close>

definition exMap :: player_map where
  "exMap = [(Val 1, exRecord ''L'' 1 3 1 10), (Val 2, exRecord ''L'' 2 8 1 20),
            (Val 3, exRecord ''L'' 3 2 2 10)]"

text \<open>An empty, working storage, and a network whose requests for league 39 are rejected.\<close>

definition emptyStorage :: localStorage where
  "emptyStorage = \<lparr> ls_item = None, ls_throws = False, ls_full = False \<rparr>"

definition exNetDown :: network where
  "exNetDown req =
     (if req_league req = 39 then Rejected else feedNet (\<lambda>l. exScorers) (\<lambda>l. exAssists) req)"


section \<open>Properties\<close>

subsection \<open>The Map and the two passes over the feeds\<close>

lemma map_keys_map_set:
  "map_keys (map_set m k v) = (if k \<in> set (map_keys m) then map_keys m else map_keys m @ [k])"
  by (induction m) (force simp: map_keys_def)+

lemma set_map_keys_map_set: "set (map_keys (map_set m k v)) = insert k (set (map_keys m))"
  by (auto simp: map_keys_map_set)

lemma map_get_map_set:
  "map_get (map_set m k v) k' = (if k' = k then Some v else map_get m k')"
  by (induction m) (auto simp: map_get_def)

lemma map_has_keys: "map_has m k \<longleftrightarrow> k \<in> set (map_keys m)"
  by (simp add: map_has_def map_get_def map_keys_def map_of_eq_None_iff)

lemma map_get_None_keys: "map_get m k = None \<longleftrightarrow> k \<notin> set (map_keys m)"
  by (simp add: map_get_def map_keys_def map_of_eq_None_iff)

lemma map_get_Some_keys: "map_get m k = Some v \<Longrightarrow> k \<in> set (map_keys m)"
  using map_get_None_keys [of m k] by auto

lemma processScorer_keys:
  assumes "processScorer lg m it = Inr m'"
  shows "\<exists>pl. item_player it = Some pl \<and> set (map_keys m') = insert (player_id pl) (set (map_keys m))"
  using assms
  by (auto simp: processScorer_def set_map_keys_map_set map_has_keys
           split: option.splits if_splits)

lemma processAssist_keys:
  assumes "processAssist m it = Inr m'"
  shows "map_keys m' = map_keys m"
  using assms
  by (auto simp: processAssist_def map_keys_map_set dest: map_get_Some_keys
           split: option.splits if_splits)

lemma feedIds_Cons:
  "feedIds (it # feed) = (case item_player it of None \<Rightarrow> feedIds feed | Some pl \<Rightarrow> player_id pl # feedIds feed)"
  by (simp add: feedIds_def playerId_def split: option.splits)

lemma feedIds_Nil: "feedIds [] = []"
  by (simp add: feedIds_def)

lemma forEach_processScorer_keys:
  "forEach (processScorer lg) m sc = Inr m' \<Longrightarrow>
     set (map_keys m') = set (map_keys m) \<union> set (feedIds sc)"
proof (induction sc arbitrary: m)
  case Nil
  then show ?case by (simp add: feedIds_Nil)
next
  case (Cons it sc)
  from Cons.prems obtain m1 where s1: "processScorer lg m it = Inr m1"
    and s2: "forEach (processScorer lg) m1 sc = Inr m'"
    by (auto split: sum.splits)
  from processScorer_keys [OF s1] obtain pl where
    pl: "item_player it = Some pl" and k1: "set (map_keys m1) = insert (player_id pl) (set (map_keys m))"
    by blast
  from Cons.IH [OF s2] k1 pl show ?case
    by (auto simp: feedIds_Cons)
qed

lemma forEach_processAssist_keys:
  "forEach processAssist m asts = Inr m' \<Longrightarrow> map_keys m' = map_keys m"
proof (induction asts arbitrary: m)
  case Nil
  then show ?case by simp
next
  case (Cons it asts)
  from Cons.prems obtain m1 where s1: "processAssist m it = Inr m1"
    and s2: "forEach processAssist m1 asts = Inr m'"
    by (auto split: sum.splits)
  from Cons.IH [OF s2] processAssist_keys [OF s1] show ?case by simp
qed

lemma forEach_append:
  "forEach f s (xs @ ys) = (case forEach f s xs of Inl e \<Rightarrow> Inl e | Inr s' \<Rightarrow> forEach f s' ys)"
  by (induction xs arbitrary: s) (auto split: sum.splits)

lemma processScorer_error: "processScorer lg m it = Inl e \<Longrightarrow> e = TypeError"
  by (auto simp: processScorer_def split: option.splits if_splits)

lemma processAssist_error: "processAssist m it = Inl e \<Longrightarrow> e = TypeError"
  by (auto simp: processAssist_def split: option.splits if_splits)

lemma forEach_processScorer_error: "forEach (processScorer lg) m sc = Inl e \<Longrightarrow> e = TypeError"
  by (induction sc arbitrary: m) (auto split: sum.splits dest: processScorer_error)

lemma forEach_processAssist_error: "forEach processAssist m asts = Inl e \<Longrightarrow> e = TypeError"
  by (induction asts arbitrary: m) (auto split: sum.splits dest: processAssist_error)

lemma processScorer_keeps:
  "processScorer lg m it = Inr m1 \<Longrightarrow> map_get m k = Some r \<Longrightarrow> map_get m1 k = Some r"
  by (auto simp: processScorer_def map_get_map_set map_has_def split: option.splits if_splits)

lemma forEach_processScorer_keeps:
  "forEach (processScorer lg) m sc = Inr m1 \<Longrightarrow> map_get m k = Some r \<Longrightarrow> map_get m1 k = Some r"
proof (induction sc arbitrary: m)
  case Nil
  then show ?case by simp
next
  case (Cons it sc)
  from Cons.prems(1) obtain m0 where s1: "processScorer lg m it = Inr m0"
    and s2: "forEach (processScorer lg) m0 sc = Inr m1"
    by (auto split: sum.splits)
  from processScorer_keeps [OF s1 Cons.prems(2)] Cons.IH [OF s2] show ?case by simp
qed

lemma processAssist_value:
  assumes "processAssist m it = Inr m1" and "map_get m k = Some r"
  shows "map_get m1 k =
           Some (r\<lparr>assists := (if playerId it = Some k then orElse (assistsOf it) (assists r)
                                else assists r)\<rparr>)"
  using assms
  by (auto simp: processAssist_def map_get_map_set playerId_def assistsOf_def
           split: option.splits if_splits)

lemma forEach_processAssist_value:
  "forEach processAssist m asts = Inr m' \<Longrightarrow> map_get m k = Some r \<Longrightarrow>
     map_get m' k = Some (r\<lparr>assists := lastAssists k asts (assists r)\<rparr>)"
proof (induction asts arbitrary: m r)
  case Nil
  then show ?case by simp
next
  case (Cons it asts)
  from Cons.prems(1) obtain m0 where s1: "processAssist m it = Inr m0"
    and s2: "forEach processAssist m0 asts = Inr m'"
    by (auto split: sum.splits)
  let ?a = "if playerId it = Some k then orElse (assistsOf it) (assists r) else assists r"
  have "map_get m0 k = Some (r\<lparr>assists := ?a\<rparr>)"
    by (rule processAssist_value [OF s1 Cons.prems(2)])
  from Cons.IH [OF s2 this] show ?case by simp
qed

lemma mergeLeague_value:
  assumes "mergeLeague lg m scorers assistFeed = Inr m'" and "map_get m k = Some r"
  shows "\<exists>asts. assistFeed = Some asts
           \<and> map_get m' k = Some (r\<lparr>assists := lastAssists k asts (assists r)\<rparr>)"
proof -
  from assms(1) obtain sc asts m1 where "scorers = Some sc" and a: "assistFeed = Some asts"
    and s1: "forEach (processScorer lg) m sc = Inr m1"
    and s2: "forEach processAssist m1 asts = Inr m'"
    by (auto simp: mergeLeague_def split: sum.splits option.splits)
  from forEach_processScorer_keeps [OF s1 assms(2)] have "map_get m1 k = Some r" .
  from forEach_processAssist_value [OF s2 this] a show ?thesis by simp
qed

lemma aggregate_snoc:
  "aggregate cfg net (ls @ [c]) =
     (case aggregate cfg net ls of Inl e \<Rightarrow> Inl e | Inr m \<Rightarrow> processLeague cfg net m c)"
  by (simp add: aggregate_def forEach_append split: sum.splits)

lemma lastAssists_absent: "k \<notin> set (feedIds asts) \<Longrightarrow> lastAssists k asts d = d"
  by (induction asts arbitrary: d) (auto simp: feedIds_Cons playerId_def split: option.splits)


text \<open>
  C1: the merge is anchored on the scorer feed. When the merge of one league's feeds
  returns a mapping, its keys are the keys it started with and the players of the scorer
  feed, so that from the empty mapping they are exactly the scorer feed's players; a
  player who is only in the assist feed is not among them.
\<close>

theorem merge_scorer_anchored:
  assumes "mergeLeague leagueName allPlayers (Some scorers) (Some assistFeed) = Inr m'"
  shows "set (map_keys m') = set (map_keys allPlayers) \<union> set (feedIds scorers)
       \<and> (\<forall>k. k \<in> set (feedIds assistFeed) \<and> k \<notin> set (feedIds scorers)
               \<and> k \<notin> set (map_keys allPlayers) \<longrightarrow> k \<notin> set (map_keys m'))"
proof -
  from assms obtain m1 where s1: "forEach (processScorer leagueName) allPlayers scorers = Inr m1"
    and s2: "forEach processAssist m1 assistFeed = Inr m'"
    by (auto simp: mergeLeague_def split: sum.splits)
  have "set (map_keys m') = set (map_keys allPlayers) \<union> set (feedIds scorers)"
    using forEach_processScorer_keys [OF s1] forEach_processAssist_keys [OF s2] by simp
  then show ?thesis by blast
qed

theorem merge_scorer_anchored_witness:
  "mergeLeague ''L'' [] (Some exScorers) (Some exAssists)
       = Inr [(Val 1, exRecord ''L'' 1 10 5 20), (Val 2, exRecord ''L'' 2 8 1 20)]
   \<and> set (map_keys [(Val 1, exRecord ''L'' 1 10 5 20), (Val 2, exRecord ''L'' 2 8 1 20)])
       = set (feedIds exScorers)
   \<and> Val 3 \<in> set (feedIds exAssists)
   \<and> Val 3 \<notin> set (map_keys [(Val 1, exRecord ''L'' 1 10 5 20), (Val 2, exRecord ''L'' 2 8 1 20)])"
proof -
  have h: "mergeLeague ''L'' [] (Some exScorers) (Some exAssists)
       = Inr [(Val 1, exRecord ''L'' 1 10 5 20), (Val 2, exRecord ''L'' 2 8 1 20)]"
    by code_simp
  have a: "Val 3 \<in> set (feedIds exAssists)" by code_simp
  have b: "Val 3 \<notin> set (feedIds exScorers)" by code_simp
  from merge_scorer_anchored [OF h] a b h show ?thesis
    by (simp add: map_keys_def)
qed

text \<open>
  C2 (as amended): a later league never replaces the record of a player that an earlier
  league stored, and changes no field of it but \<open>assists\<close>: after the later league, \<open>assists\<close>
  holds the last non-zero count that the later league's assist feed lists for the player,
  and the record is unchanged when that feed does not list the player.
\<close>

theorem later_league_keeps_all_but_assists:
  assumes "aggregate cfg net ls = Inr m1"
    and "aggregate cfg net (ls @ [c]) = Inr m2"
    and "map_get m1 k = Some r"
  shows "\<exists>asts. getTopAssists cfg net (snd c) = Some asts
           \<and> map_get m2 k = Some (r\<lparr>assists := lastAssists k asts (assists r)\<rparr>)
           \<and> (k \<notin> set (feedIds asts) \<longrightarrow> map_get m2 k = Some r)"
proof -
  from assms(1,2) have "processLeague cfg net m1 c = Inr m2"
    by (simp add: aggregate_snoc)
  then have "mergeLeague (fst c) m1 (getTopScorers cfg net (snd c)) (getTopAssists cfg net (snd c)) = Inr m2"
    by (simp add: processLeague_def split: prod.splits)
  from mergeLeague_value [OF this assms(3)] obtain asts where
    a: "getTopAssists cfg net (snd c) = Some asts"
    and b: "map_get m2 k = Some (r\<lparr>assists := lastAssists k asts (assists r)\<rparr>)"
    by blast
  have "k \<notin> set (feedIds asts) \<longrightarrow> map_get m2 k = Some r"
    using b by (simp add: lastAssists_absent)
  with a b show ?thesis by blast
qed
theorem later_league_keeps_all_but_assists_witness:
  "aggregate CONFIG exNetTwo [(''PREMIER_LEAGUE'', 39)]
     = Inr [(Val 7, exRecord ''PREMIER LEAGUE'' 7 10 2 20)]
   \<and> aggregate CONFIG exNetTwo ([(''PREMIER_LEAGUE'', 39)] @ [(''LA_LIGA'', 140)])
     = Inr [(Val 7, exRecord ''PREMIER LEAGUE'' 7 10 9 20)]
   \<and> getTopAssists CONFIG exNetTwo 140 = Some [assistEntry 7 9]
   \<and> map_get [(Val 7, exRecord ''PREMIER LEAGUE'' 7 10 9 20)] (Val 7)
       = Some ((exRecord ''PREMIER LEAGUE'' 7 10 2 20)
                 \<lparr>assists := lastAssists (Val 7) [assistEntry 7 9] 2\<rparr>)
   \<and> aggregate CONFIG exNetDown [(''LA_LIGA'', 140)]
     = Inr [(Val 1, exRecord ''LA LIGA'' 1 10 5 20), (Val 2, exRecord ''LA LIGA'' 2 8 1 20)]
   \<and> aggregate CONFIG exNetDown ([(''LA_LIGA'', 140)] @ [(''PREMIER_LEAGUE'', 39)])
     = Inr [(Val 1, exRecord ''LA LIGA'' 1 10 5 20), (Val 2, exRecord ''LA LIGA'' 2 8 1 20)]
   \<and> getTopAssists CONFIG exNetDown 39 = Some []
   \<and> Val 2 \<notin> set (feedIds [])
   \<and> map_get [(Val 1, exRecord ''LA LIGA'' 1 10 5 20), (Val 2, exRecord ''LA LIGA'' 2 8 1 20)] (Val 2)
       = Some (exRecord ''LA LIGA'' 2 8 1 20)"
proof -
  have a: "aggregate CONFIG exNetTwo [(''PREMIER_LEAGUE'', 39)]
     = Inr [(Val 7, exRecord ''PREMIER LEAGUE'' 7 10 2 20)]" by code_simp
  have b: "aggregate CONFIG exNetTwo ([(''PREMIER_LEAGUE'', 39)] @ [(''LA_LIGA'', 140)])
     = Inr [(Val 7, exRecord ''PREMIER LEAGUE'' 7 10 9 20)]" by code_simp
  have c: "map_get [(Val 7, exRecord ''PREMIER LEAGUE'' 7 10 2 20)] (Val 7)
     = Some (exRecord ''PREMIER LEAGUE'' 7 10 2 20)" by code_simp
  have d: "getTopAssists CONFIG exNetTwo 140 = Some [assistEntry 7 9]" by code_simp
  have e: "assists (exRecord ''PREMIER LEAGUE'' 7 10 2 20) = 2" by (simp add: exRecord_def)
  from later_league_keeps_all_but_assists [OF a b c] d e
  have 1: "map_get [(Val 7, exRecord ''PREMIER LEAGUE'' 7 10 9 20)] (Val 7)
       = Some ((exRecord ''PREMIER LEAGUE'' 7 10 2 20)
                 \<lparr>assists := lastAssists (Val 7) [assistEntry 7 9] 2\<rparr>)" by simp
  have a': "aggregate CONFIG exNetDown [(''LA_LIGA'', 140)]
     = Inr [(Val 1, exRecord ''LA LIGA'' 1 10 5 20), (Val 2, exRecord ''LA LIGA'' 2 8 1 20)]"
    by code_simp
  have b': "aggregate CONFIG exNetDown ([(''LA_LIGA'', 140)] @ [(''PREMIER_LEAGUE'', 39)])
     = Inr [(Val 1, exRecord ''LA LIGA'' 1 10 5 20), (Val 2, exRecord ''LA LIGA'' 2 8 1 20)]"
    by code_simp
  have c': "map_get [(Val 1, exRecord ''LA LIGA'' 1 10 5 20), (Val 2, exRecord ''LA LIGA'' 2 8 1 20)] (Val 2)
     = Some (exRecord ''LA LIGA'' 2 8 1 20)" by code_simp
  have d': "getTopAssists CONFIG exNetDown 39 = Some []"
    by (simp add: getTopAssists_def fetchFromAPI_def exNetDown_def)
  have n': "Val 2 \<notin> set (feedIds [])" by (simp add: feedIds_Nil)
  from later_league_keeps_all_but_assists [OF a' b' c'] d' n'
  have 2: "map_get [(Val 1, exRecord ''LA LIGA'' 1 10 5 20), (Val 2, exRecord ''LA LIGA'' 2 8 1 20)] (Val 2)
       = Some (exRecord ''LA LIGA'' 2 8 1 20)" by auto
  from a b d 1 a' b' d' n' 2 show ?thesis by blast
qed

text \<open>
  C2 as stated fails: player 7 is stored by the first league with 2 assists, and the second
  league's assist feed lists the same identifier with 9.
\<close>

theorem later_league_overwrites_assists:
  "aggregate CONFIG exNetTwo [(''PREMIER_LEAGUE'', 39)]
     = Inr [(Val 7, exRecord ''PREMIER LEAGUE'' 7 10 2 20)]
   \<and> aggregate CONFIG exNetTwo [(''PREMIER_LEAGUE'', 39), (''LA_LIGA'', 140)]
     = Inr [(Val 7, exRecord ''PREMIER LEAGUE'' 7 10 9 20)]
   \<and> exRecord ''PREMIER LEAGUE'' 7 10 9 20 \<noteq> exRecord ''PREMIER LEAGUE'' 7 10 2 20"
  by code_simp

subsection \<open>The assists of a player in both feeds\<close>







subsection \<open>Entries with missing blocks\<close>

lemma scorer_incomplete_throws:
  assumes "\<not> scorerComplete it"
    and "\<forall>k. playerId it = Some k \<longrightarrow> k \<notin> set (map_keys m)"
  shows "processScorer lg m it = Inl TypeError"
  using assms
  by (auto simp: scorerComplete_def processScorer_def playerId_def map_has_keys
           split: option.splits list.splits)

lemma assist_incomplete_throws:
  assumes "\<not> assistComplete it"
    and "\<forall>k. playerId it = Some k \<longrightarrow> k \<in> set (map_keys m)"
  shows "processAssist m it = Inl TypeError"
  using assms
  by (auto simp: assistComplete_def processAssist_def playerId_def map_get_None_keys
           split: option.splits list.splits)

lemma forEach_scorer_incomplete:
  assumes "\<not> scorerComplete it"
    and "\<forall>k. playerId it = Some k \<longrightarrow> k \<notin> set (map_keys m) \<union> set (feedIds pre)"
  shows "forEach (processScorer lg) m (pre @ it # post) = Inl TypeError"
proof (cases "forEach (processScorer lg) m pre")
  case (Inl e)
  then show ?thesis using forEach_processScorer_error [OF Inl] by (simp add: forEach_append)
next
  case (Inr m0)
  from forEach_processScorer_keys [OF Inr] assms(2)
  have "\<forall>k. playerId it = Some k \<longrightarrow> k \<notin> set (map_keys m0)" by simp
  from scorer_incomplete_throws [OF assms(1) this] Inr show ?thesis
    by (simp add: forEach_append)
qed

lemma forEach_assist_incomplete:
  assumes "\<not> assistComplete it"
    and "\<forall>k. playerId it = Some k \<longrightarrow> k \<in> set (map_keys m)"
  shows "forEach processAssist m (pre @ it # post) = Inl TypeError"
proof (cases "forEach processAssist m pre")
  case (Inl e)
  then show ?thesis using forEach_processAssist_error [OF Inl] by (simp add: forEach_append)
next
  case (Inr m0)
  from forEach_processAssist_keys [OF Inr] assms(2)
  have "\<forall>k. playerId it = Some k \<longrightarrow> k \<in> set (map_keys m0)" by simp
  from assist_incomplete_throws [OF assms(1) this] Inr show ?thesis
    by (simp add: forEach_append)
qed

text \<open>
  C3 (as amended): an entry with missing blocks is not passed over on its own. The merge
  throws a \<open>TypeError\<close> and returns no mapping when the scorer feed has an incomplete entry
  of a player who is neither in the mapping nor earlier in the feed, and when the assist
  feed has an incomplete entry of a player who is in the mapping after the scorer pass.
\<close>

theorem incomplete_entry_aborts_merge:
  "(\<not> scorerComplete it
      \<and> (\<forall>k. playerId it = Some k \<longrightarrow> k \<notin> set (map_keys allPlayers) \<union> set (feedIds pre))
      \<longrightarrow> mergeLeague leagueName allPlayers (Some (pre @ it # post)) assistFeed = Inl TypeError)
   \<and> (forEach (processScorer leagueName) allPlayers scorers = Inr m1
      \<and> \<not> assistComplete it
      \<and> (\<forall>k. playerId it = Some k \<longrightarrow> k \<in> set (map_keys m1))
      \<longrightarrow> mergeLeague leagueName allPlayers (Some scorers) (Some (pre @ it # post)) = Inl TypeError)"
  using forEach_scorer_incomplete [of it allPlayers pre leagueName post]
        forEach_assist_incomplete [of it m1 pre post]
  by (auto simp: mergeLeague_def)

theorem incomplete_entry_aborts_merge_witness:
  "\<not> scorerComplete (emptyStatsEntry 1)
   \<and> playerId (emptyStatsEntry 1) = Some (Val 1)
   \<and> Val 1 \<notin> set (map_keys []) \<union> set (feedIds [])
   \<and> mergeLeague ''L'' [] (Some ([] @ emptyStatsEntry 1 # [scorerEntry 2 8 1 20])) (Some [])
       = Inl TypeError
   \<and> forEach (processScorer ''L'') [] exScorers
       = Inr [(Val 1, exRecord ''L'' 1 10 2 20), (Val 2, exRecord ''L'' 2 8 1 20)]
   \<and> \<not> assistComplete (emptyStatsEntry 1)
   \<and> Val 1 \<in> set (map_keys [(Val 1, exRecord ''L'' 1 10 2 20), (Val 2, exRecord ''L'' 2 8 1 20)])
   \<and> mergeLeague ''L'' [] (Some exScorers) (Some ([assistEntry 1 5] @ emptyStatsEntry 1 # []))
       = Inl TypeError"
proof -
  have i: "\<not> scorerComplete (emptyStatsEntry 1)" by code_simp
  have p: "playerId (emptyStatsEntry 1) = Some (Val 1)" by code_simp
  have n: "Val 1 \<notin> set (map_keys []) \<union> set (feedIds [])" by code_simp
  have s: "forEach (processScorer ''L'') [] exScorers
       = Inr [(Val 1, exRecord ''L'' 1 10 2 20), (Val 2, exRecord ''L'' 2 8 1 20)]"
    by code_simp
  have j: "\<not> assistComplete (emptyStatsEntry 1)" by code_simp
  have k: "Val 1 \<in> set (map_keys [(Val 1, exRecord ''L'' 1 10 2 20), (Val 2, exRecord ''L'' 2 8 1 20)])"
    by code_simp
  have c1: "mergeLeague ''L'' [] (Some ([] @ emptyStatsEntry 1 # [scorerEntry 2 8 1 20])) (Some [])
       = Inl TypeError"
    using incomplete_entry_aborts_merge
            [where it = "emptyStatsEntry 1" and allPlayers = "[]" and pre = "[]"
               and post = "[scorerEntry 2 8 1 20]" and assistFeed = "Some []"
               and leagueName = "''L''"]
          i p n by auto
  have c2: "mergeLeague ''L'' [] (Some exScorers) (Some ([assistEntry 1 5] @ emptyStatsEntry 1 # []))
       = Inl TypeError"
    using incomplete_entry_aborts_merge
            [where it = "emptyStatsEntry 1" and allPlayers = "[]" and pre = "[assistEntry 1 5]"
               and post = "[]" and scorers = exScorers and leagueName = "''L''"
               and ?m1.0 = "[(Val 1, exRecord ''L'' 1 10 2 20), (Val 2, exRecord ''L'' 2 8 1 20)]"]
          s j p k by auto
  from i p n c1 s j k c2 show ?thesis by blast
qed

text \<open>
  C3 as stated fails: with an entry whose statistics array is empty ahead of a complete
  entry, the merge returns no mapping, where the complete entry alone gives one, and
  \<open>getAllPlayers\<close> throws.
\<close>

theorem incomplete_entry_not_skipped:
  "mergeLeague ''L'' [] (Some [emptyStatsEntry 1, scorerEntry 2 8 1 20]) (Some []) = Inl TypeError
   \<and> mergeLeague ''L'' [] (Some [scorerEntry 2 8 1 20]) (Some []) = Inr [(Val 2, exRecord ''L'' 2 8 1 20)]
   \<and> fst (getAllPlayers CONFIG (newManager CONFIG 0 \<lparr>ls_item = None, ls_throws = False, ls_full = False\<rparr>)
        (feedNet (\<lambda>l. [emptyStatsEntry 1, scorerEntry 2 8 1 20]) (\<lambda>l. [])) 0
        \<lparr>ls_item = None, ls_throws = False, ls_full = False\<rparr>) = Inl TypeError"
  by code_simp

subsection \<open>The ranking\<close>

lemma set_insert_cmp: "set (insert_cmp cmp x ys) = insert x (set ys)"
  by (induction ys) auto

lemma length_insert_cmp: "length (insert_cmp cmp x ys) = Suc (length ys)"
  by (induction ys) auto

lemma sort_cmp_Cons: "sort_cmp cmp (x # xs) = insert_cmp cmp x (sort_cmp cmp xs)"
  by (simp add: sort_cmp_def)

lemma sort_cmp_Nil: "sort_cmp cmp [] = []"
  by (simp add: sort_cmp_def)

lemma length_sort_cmp: "length (sort_cmp cmp xs) = length xs"
  by (induction xs) (simp_all add: sort_cmp_Nil sort_cmp_Cons length_insert_cmp)


lemma sorted_insert_cmp:
  assumes "sorted_wrt (\<lambda>a b. goalsAndAssists b \<le> goalsAndAssists a) ys"
  shows "sorted_wrt (\<lambda>a b. goalsAndAssists b \<le> goalsAndAssists a) (insert_cmp compareFn x ys)"
  using assms
proof (induction ys)
  case Nil
  then show ?case by simp
next
  case (Cons y ys)
  show ?case
  proof (cases "compareFn x y \<le> 0")
    case True
    then have "goalsAndAssists y \<le> goalsAndAssists x" by (simp add: compareFn_def)
    with Cons.prems True show ?thesis by force
  next
    case False
    then have "goalsAndAssists x \<le> goalsAndAssists y" by (simp add: compareFn_def)
    with Cons False show ?thesis by (auto simp: set_insert_cmp)
  qed
qed

lemma sorted_sort_cmp:
  "sorted_wrt (\<lambda>a b. goalsAndAssists b \<le> goalsAndAssists a) (sort_cmp compareFn xs)"
  by (induction xs) (simp_all add: sort_cmp_Nil sort_cmp_Cons sorted_insert_cmp)

lemma filter_insert_cmp:
  "filter (\<lambda>p. goalsAndAssists p = s) (insert_cmp compareFn x ys) =
     (if goalsAndAssists x = s then x # filter (\<lambda>p. goalsAndAssists p = s) ys
      else filter (\<lambda>p. goalsAndAssists p = s) ys)"
  by (induction ys) (auto simp: compareFn_def)

lemma filter_sort_cmp:
  "filter (\<lambda>p. goalsAndAssists p = s) (sort_cmp compareFn xs) =
     filter (\<lambda>p. goalsAndAssists p = s) xs"
  by (induction xs) (simp_all add: sort_cmp_Nil sort_cmp_Cons filter_insert_cmp)

lemma prefix_filter_take: "prefix (filter P (take n xs)) (filter P xs)"
proof -
  have "filter P xs = filter P (take n xs) @ filter P (drop n xs)"
    by (metis append_take_drop_id filter_append)
  then show ?thesis by (metis prefixI)
qed

lemma sorted_wrt_take: "sorted_wrt R xs \<Longrightarrow> sorted_wrt R (take n xs)"
  by (metis append_take_drop_id sorted_wrt_append)

lemma distinct_map_set: "distinct (map_keys m) \<Longrightarrow> distinct (map_keys (map_set m k v))"
  by (simp add: map_keys_map_set)

lemma processScorer_distinct:
  "processScorer lg m it = Inr m1 \<Longrightarrow> distinct (map_keys m) \<Longrightarrow> distinct (map_keys m1)"
  by (auto simp: processScorer_def distinct_map_set split: option.splits if_splits)

lemma forEach_processScorer_distinct:
  "forEach (processScorer lg) m sc = Inr m1 \<Longrightarrow> distinct (map_keys m) \<Longrightarrow> distinct (map_keys m1)"
  by (induction sc arbitrary: m) (auto split: sum.splits dest: processScorer_distinct)

lemma mergeLeague_distinct:
  assumes "mergeLeague lg m scorers assistFeed = Inr m'" and "distinct (map_keys m)"
  shows "distinct (map_keys m')"
proof -
  from assms(1) obtain sc asts m1 where
    s1: "forEach (processScorer lg) m sc = Inr m1" and s2: "forEach processAssist m1 asts = Inr m'"
    by (auto simp: mergeLeague_def split: sum.splits option.splits)
  from forEach_processScorer_distinct [OF s1 assms(2)] forEach_processAssist_keys [OF s2]
  show ?thesis by simp
qed

lemma forEach_processLeague_distinct:
  "forEach (processLeague cfg net) m ls = Inr m' \<Longrightarrow> distinct (map_keys m) \<Longrightarrow>
     distinct (map_keys m')"
proof (induction ls arbitrary: m)
  case Nil
  then show ?case by simp
next
  case (Cons c ls)
  from Cons.prems(1) obtain m0 where s1: "processLeague cfg net m c = Inr m0"
    and s2: "forEach (processLeague cfg net) m0 ls = Inr m'"
    by (auto split: sum.splits)
  from s1 have "mergeLeague (fst c) m (getTopScorers cfg net (snd c)) (getTopAssists cfg net (snd c)) = Inr m0"
    by (simp add: processLeague_def split: prod.splits)
  from mergeLeague_distinct [OF this Cons.prems(2)] Cons.IH [OF s2] show ?case by simp
qed

lemma aggregate_distinct: "aggregate cfg net ls = Inr m \<Longrightarrow> distinct (map_keys m)"
  unfolding aggregate_def using forEach_processLeague_distinct [of cfg net "[]" ls m]
  by (simp add: map_keys_def)

text \<open>
  C4: the ranking is sorted by \<open>goalsAndAssists\<close> in descending order; players with equal
  scores keep the order in which the Map holds them (the output's players of a score are
  an initial part of the Map's players of that score); its length is the smaller of
  \<open>TOP_PLAYERS_COUNT\<close>, which is 10 in \<open>CONFIG\<close>, and the number of distinct players; and
  the empty Map gives the empty ranking. The keys of a Map are distinct
  (\<open>aggregate_distinct\<close>).
\<close>

theorem rank_sorted_stable_bounded:
  assumes "distinct (map_keys allPlayers)"
  shows "sorted_wrt (\<lambda>a b. goalsAndAssists b \<le> goalsAndAssists a) (rank cfg allPlayers)
       \<and> (\<forall>s. prefix (filter (\<lambda>p. goalsAndAssists p = s) (rank cfg allPlayers))
                     (filter (\<lambda>p. goalsAndAssists p = s)
                        (map withCombined (map_values allPlayers))))
       \<and> length (rank cfg allPlayers)
           = min (TOP_PLAYERS_COUNT cfg) (card (set (map_keys allPlayers)))
       \<and> TOP_PLAYERS_COUNT CONFIG = 10
       \<and> rank cfg [] = []"
proof -
  let ?inp = "map withCombined (map_values allPlayers)"
  have r: "rank cfg allPlayers = take (TOP_PLAYERS_COUNT cfg) (sort_cmp compareFn ?inp)"
    by (simp add: rank_def)
  have 1: "sorted_wrt (\<lambda>a b. goalsAndAssists b \<le> goalsAndAssists a) (rank cfg allPlayers)"
    unfolding r by (rule sorted_wrt_take) (rule sorted_sort_cmp)
  have 2: "prefix (filter (\<lambda>p. goalsAndAssists p = s) (rank cfg allPlayers))
                  (filter (\<lambda>p. goalsAndAssists p = s) ?inp)" for s
    unfolding r using prefix_filter_take [of "\<lambda>p. goalsAndAssists p = s" "TOP_PLAYERS_COUNT cfg"
        "sort_cmp compareFn ?inp"]
    by (simp add: filter_sort_cmp)
  have "card (set (map_keys allPlayers)) = length allPlayers"
    using assms distinct_card [of "map_keys allPlayers"] by (simp add: map_keys_def)
  then have 3: "length (rank cfg allPlayers)
           = min (TOP_PLAYERS_COUNT cfg) (card (set (map_keys allPlayers)))"
    unfolding r by (simp add: length_sort_cmp map_values_def min.commute)
  have 4: "TOP_PLAYERS_COUNT CONFIG = 10" by (simp add: CONFIG_def)
  have 5: "rank cfg [] = []" by (simp add: rank_def map_values_def sort_cmp_Nil)
  from 1 2 3 4 5 show ?thesis by blast
qed

theorem rank_sorted_stable_bounded_witness:
  "distinct (map_keys exMap)
   \<and> map pid (rank CONFIG exMap) = [Val 2, Val 1, Val 3]
   \<and> map goalsAndAssists (rank CONFIG exMap) = [9, 4, 4]
   \<and> sorted_wrt (\<lambda>a b. goalsAndAssists b \<le> goalsAndAssists a) (rank CONFIG exMap)
   \<and> length (rank CONFIG exMap) = min (TOP_PLAYERS_COUNT CONFIG) (card (set (map_keys exMap)))"
proof -
  have d: "distinct (map_keys exMap)" by code_simp
  have p: "map pid (rank CONFIG exMap) = [Val 2, Val 1, Val 3]" by code_simp
  have g: "map goalsAndAssists (rank CONFIG exMap) = [9, 4, 4]" by code_simp
  from rank_sorted_stable_bounded [OF d, of CONFIG] d p g show ?thesis by blast
qed

subsection \<open>The derived fields\<close>

lemma bitlen_bounds: "0 < n \<Longrightarrow> n < 2 ^ bitlen n \<and> 2 ^ (bitlen n - 1) \<le> n"
proof (induction n rule: bitlen.induct)
  case (1 n)
  show ?case
  proof (cases "n div 2 = 0")
    case True
    with "1.prems" have "n = 1" by (simp add: div_eq_0_iff)
    then show ?thesis by (simp add: bitlen.simps)
  next
    case False
    then have pos: "0 < n div 2" by simp
    from "1.IH" [OF _ pos] "1.prems"
    have ih: "n div 2 < 2 ^ bitlen (n div 2)" "2 ^ (bitlen (n div 2) - 1) \<le> n div 2"
      by simp_all
    have b: "bitlen n = Suc (bitlen (n div 2))" using "1.prems" by (simp add: bitlen.simps)
    have bp: "0 < bitlen (n div 2)" using pos by (simp add: bitlen.simps)
    have "n < 2 * 2 ^ bitlen (n div 2)" using ih(1) by linarith
    moreover have "(2::nat) ^ bitlen (n div 2) = 2 * 2 ^ (bitlen (n div 2) - 1)"
      using bp by (cases "bitlen (n div 2)") simp_all
    then have "(2::nat) ^ bitlen (n div 2) \<le> n" using ih(2) by linarith
    ultimately show ?thesis by (simp add: b)
  qed
qed


lemma shift_reaches:
  fixes g a :: int
  assumes g: "0 < g" "g < 2 ^ 53" and a: "0 < a"
  defines "s0 \<equiv> bitlen (nat a) + 52 - bitlen (nat g)"
  defines "s \<equiv> (if a * 2 ^ 52 \<le> g * 2 ^ s0 then s0 else Suc s0)"
  shows "a * 2 ^ 52 \<le> g * 2 ^ s"
proof (cases "a * 2 ^ 52 \<le> g * 2 ^ s0")
  case True
  then show ?thesis by (simp add: s_def)
next
  case False
  then have s: "s = Suc s0" by (simp add: s_def)
  from bitlen_bounds [of "nat g"] g have bg: "nat g < 2 ^ bitlen (nat g)"
    "2 ^ (bitlen (nat g) - 1) \<le> nat g" by simp_all
  from bitlen_bounds [of "nat a"] a have ba: "nat a < 2 ^ bitlen (nat a)" by simp
  have bgpos: "0 < bitlen (nat g)" using g by (simp add: bitlen.simps)
  have "nat g < 2 ^ 53" using g by (simp add: nat_less_iff)
  with bg(2) have "(2::nat) ^ (bitlen (nat g) - 1) < 2 ^ 53" by (rule le_less_trans)
  then have "bitlen (nat g) - 1 < 53" by (simp only: power_strict_increasing_iff one_less_numeral_iff semiring_norm)
  then have le: "bitlen (nat g) \<le> 53" by simp
  have bapos: "0 < bitlen (nat a)" using a by (simp add: bitlen.simps)
  have e: "bitlen (nat g) - 1 + Suc s0 = bitlen (nat a) + 52"
    using bgpos bapos le unfolding s0_def by linarith
  have "int (nat a) < int (2 ^ bitlen (nat a))" using ba by (simp only: of_nat_less_iff)
  then have "int (nat a) < 2 ^ bitlen (nat a)" by simp
  then have "int (nat a) * 2 ^ 52 < 2 ^ bitlen (nat a) * 2 ^ 52"
    by (simp only: mult_less_cancel_right) simp
  also have "\<dots> = (2::int) ^ (bitlen (nat g) - 1 + Suc s0)"
    by (simp only: e power_add)
  also have "\<dots> = 2 ^ (bitlen (nat g) - 1) * 2 ^ Suc s0" by (simp only: power_add)
  also have "\<dots> \<le> int (nat g) * 2 ^ Suc s0"
  proof -
    have "int (2 ^ (bitlen (nat g) - 1)) \<le> int (nat g)" using bg(2) by (simp only: of_nat_le_iff)
    then have "2 ^ (bitlen (nat g) - 1) \<le> int (nat g)" by simp
    then show ?thesis by (rule mult_right_mono) simp
  qed
  finally show ?thesis using g a s by simp
qed

lemma shift_least:
  fixes g a :: int
  assumes g: "0 < g" "g < 2 ^ 53" and a: "0 < a"
  defines "s0 \<equiv> bitlen (nat a) + 52 - bitlen (nat g)"
  defines "s \<equiv> (if a * 2 ^ 52 \<le> g * 2 ^ s0 then s0 else Suc s0)"
  shows "g * 2 ^ s < a * 2 ^ 53"
proof (cases "a * 2 ^ 52 \<le> g * 2 ^ s0")
  case False
  then show ?thesis by (simp add: s_def)
next
  case True
  then have s: "s = s0" by (simp add: s_def)
  from bitlen_bounds [of "nat g"] g have bg: "nat g < 2 ^ bitlen (nat g)"
    "2 ^ (bitlen (nat g) - 1) \<le> nat g" by simp_all
  from bitlen_bounds [of "nat a"] a have ba: "2 ^ (bitlen (nat a) - 1) \<le> nat a" by simp
  have bapos: "0 < bitlen (nat a)" using a by (simp add: bitlen.simps)
  have "nat g < 2 ^ 53" using g by (simp add: nat_less_iff)
  with bg(2) have "(2::nat) ^ (bitlen (nat g) - 1) < 2 ^ 53" by (rule le_less_trans)
  then have "bitlen (nat g) - 1 < 53"
    by (simp only: power_strict_increasing_iff one_less_numeral_iff semiring_norm)
  then have le: "bitlen (nat g) \<le> 53" by simp
  have e: "bitlen (nat g) + s0 = bitlen (nat a) - 1 + 53"
    using bapos le unfolding s0_def by linarith
  have "int (nat g) < int (2 ^ bitlen (nat g))" using bg(1) by (simp only: of_nat_less_iff)
  then have "int (nat g) < 2 ^ bitlen (nat g)" by simp
  then have "int (nat g) * 2 ^ s0 < 2 ^ bitlen (nat g) * 2 ^ s0"
    by (simp only: mult_less_cancel_right) simp
  also have "\<dots> = (2::int) ^ (bitlen (nat a) - 1 + 53)"
    by (simp only: e flip: power_add)
  also have "\<dots> = 2 ^ (bitlen (nat a) - 1) * 2 ^ 53" by (simp only: power_add)
  also have "\<dots> \<le> int (nat a) * 2 ^ 53"
  proof -
    have "int (2 ^ (bitlen (nat a) - 1)) \<le> int (nat a)" using ba by (simp only: of_nat_le_iff)
    then have "2 ^ (bitlen (nat a) - 1) \<le> int (nat a)" by simp
    then show ?thesis by (rule mult_right_mono) simp
  qed
  finally show ?thesis using g a s by simp
qed

lemma divPos_significand:
  fixes g a :: int
  assumes g: "0 < g" "g < 2 ^ 53" and a: "0 < a"
  shows "\<exists>s. divPos g a = of_int (roundTiesToEven (g * 2 ^ s) a) / 2 ^ s
            \<and> a * 2 ^ 52 \<le> g * 2 ^ s \<and> g * 2 ^ s < a * 2 ^ 53"
proof -
  define s where "s = (if a * 2 ^ 52 \<le> g * 2 ^ (bitlen (nat a) + 52 - bitlen (nat g))
                       then bitlen (nat a) + 52 - bitlen (nat g)
                       else Suc (bitlen (nat a) + 52 - bitlen (nat g)))"
  have "divPos g a = of_int (roundTiesToEven (g * 2 ^ s) a) / 2 ^ s"
    unfolding divPos_def Let_def s_def ..
  moreover have "a * 2 ^ 52 \<le> g * 2 ^ s"
    unfolding s_def by (rule shift_reaches [OF g a])
  moreover have "g * 2 ^ s < a * 2 ^ 53"
    unfolding s_def by (rule shift_least [OF g a])
  ultimately show ?thesis by blast
qed





lemma digits_nonempty: "digits n \<noteq> []"
  by (subst digits.simps) simp

lemma fixed2_digits:
  "fixed2 n = digits (n div 100) @
     [CHR ''.'', ''0123456789'' ! (n div 10 mod 10), ''0123456789'' ! (n mod 10)]"
proof -
  consider "n < 10" | "10 \<le> n" "n < 100" | "100 \<le> n" by linarith
  then show ?thesis
  proof cases
    case 1
    then have "digits n = [''0123456789'' ! n]" by (subst digits.simps) simp
    moreover have "digits 0 = ''0''" by (subst digits.simps) simp
    ultimately show ?thesis using 1 by (simp add: fixed2_def Let_def)
  next
    case 2
    then have d1: "digits (n div 10) = [''0123456789'' ! (n div 10)]"
      by (subst digits.simps) simp
    from 2 have "digits n = digits (n div 10) @ [''0123456789'' ! (n mod 10)]"
      by (subst digits.simps) simp
    moreover have "digits 0 = ''0''" by (subst digits.simps) simp
    ultimately show ?thesis using 2 d1 by (simp add: fixed2_def Let_def)
  next
    case 3
    then have a: "digits n = digits (n div 10) @ [''0123456789'' ! (n mod 10)]"
      by (subst digits.simps) simp
    from 3 have "10 \<le> n div 10" by simp
    then have "digits (n div 10) = digits (n div 10 div 10) @ [''0123456789'' ! (n div 10 mod 10)]"
      by (subst digits.simps) simp
    then have b: "digits (n div 10) = digits (n div 100) @ [''0123456789'' ! (n div 10 mod 10)]"
      by (simp add: div_mult2_eq [symmetric])
    have "0 < length (digits (n div 100))" using digits_nonempty [of "n div 100"] by simp
    then show ?thesis by (simp add: fixed2_def Let_def a b)
  qed
qed

lemma toFixed2_ties:
  "toFixed2 (numDiv 3 40) = ''0.07'' \<and> toFixed2 (numDiv 1 8) = ''0.13''"
  by code_simp




subsection \<open>The snapshot cache\<close>



text \<open>
  C10: the age of the snapshot is checked by \<open>loadCache\<close> in the constructor only. When the
  snapshot was valid then, \<open>getAllPlayers\<close> returns its players whatever the clock, the
  network and the storage are at the call, and leaves the storage as it is; after the
  refresh handler has cleared the cache, \<open>getAllPlayers\<close> aggregates afresh.
\<close>

theorem cache_checked_once:
  "(loadCache cfg t0 ls0 = Some d \<and> players d = Some L \<longrightarrow>
      getAllPlayers cfg (newManager cfg t0 ls0) net now ls = (Inr L, ls))
   \<and> (invalidate (newManager cfg t0 ls0) ls = Inr (mgr', ls') \<longrightarrow>
      getAllPlayers cfg mgr' net now ls'' =
        (case aggregate cfg net (LEAGUES cfg) of
           Inl e \<Rightarrow> (Inl e, ls'')
         | Inr m \<Rightarrow> (Inr (rank cfg m), saveCache now (rank cfg m) ls'')))"
  by (auto simp: getAllPlayers_def cachedPlayers_def newManager_def invalidate_def Let_def
        split: if_splits sum.splits)

theorem cache_checked_once_witness:
  "loadCache CONFIG 1000 (saveCache 0 (rank CONFIG exMap) emptyStorage)
      = Some \<lparr> timestamp = 0, players = Some (rank CONFIG exMap) \<rparr>
   \<and> CACHE_DURATION CONFIG \<le> 1000000000000 - 0
   \<and> getAllPlayers CONFIG (newManager CONFIG 1000 (saveCache 0 (rank CONFIG exMap) emptyStorage))
        exNetDown 1000000000000 emptyStorage = (Inr (rank CONFIG exMap), emptyStorage)
   \<and> invalidate (newManager CONFIG 1000 (saveCache 0 (rank CONFIG exMap) emptyStorage))
        (saveCache 0 (rank CONFIG exMap) emptyStorage)
      = Inr (\<lparr> apiBase = ''https://v3.football.api-sports.io'', cache = None \<rparr>, emptyStorage)
   \<and> aggregate CONFIG exNetDown (LEAGUES CONFIG)
      = Inr [(Val 1, exRecord ''LA LIGA'' 1 10 5 20), (Val 2, exRecord ''LA LIGA'' 2 8 1 20)]
   \<and> fst (getAllPlayers CONFIG \<lparr> apiBase = ''https://v3.football.api-sports.io'', cache = None \<rparr>
        exNetDown 1000000000000 emptyStorage)
      = Inr (rank CONFIG [(Val 1, exRecord ''LA LIGA'' 1 10 5 20), (Val 2, exRecord ''LA LIGA'' 2 8 1 20)])"
proof -
  have a: "loadCache CONFIG 1000 (saveCache 0 (rank CONFIG exMap) emptyStorage)
      = Some \<lparr> timestamp = 0, players = Some (rank CONFIG exMap) \<rparr>"
    by (simp add: loadCache_def saveCache_def emptyStorage_def CONFIG_def)
  have b: "players \<lparr> timestamp = 0, players = Some (rank CONFIG exMap) \<rparr> = Some (rank CONFIG exMap)"
    by simp
  have c: "CACHE_DURATION CONFIG \<le> 1000000000000 - 0" by (simp add: CONFIG_def)
  have d: "invalidate (newManager CONFIG 1000 (saveCache 0 (rank CONFIG exMap) emptyStorage))
        (saveCache 0 (rank CONFIG exMap) emptyStorage)
      = Inr (\<lparr> apiBase = ''https://v3.football.api-sports.io'', cache = None \<rparr>, emptyStorage)"
    by (simp add: invalidate_def newManager_def saveCache_def emptyStorage_def)
  have e: "aggregate CONFIG exNetDown (LEAGUES CONFIG)
      = Inr [(Val 1, exRecord ''LA LIGA'' 1 10 5 20), (Val 2, exRecord ''LA LIGA'' 2 8 1 20)]"
    by code_simp
  note t = cache_checked_once [where cfg = CONFIG and ?t0.0 = 1000
      and ?ls0.0 = "saveCache 0 (rank CONFIG exMap) emptyStorage"
      and d = "\<lparr> timestamp = 0, players = Some (rank CONFIG exMap) \<rparr>"
      and L = "rank CONFIG exMap" and net = exNetDown and now = 1000000000000
      and ls = emptyStorage]
  from t a b
  have 1: "getAllPlayers CONFIG (newManager CONFIG 1000 (saveCache 0 (rank CONFIG exMap) emptyStorage))
        exNetDown 1000000000000 emptyStorage = (Inr (rank CONFIG exMap), emptyStorage)"
    by blast
  from cache_checked_once [where cfg = CONFIG and ?t0.0 = 1000
      and ?ls0.0 = "saveCache 0 (rank CONFIG exMap) emptyStorage"
      and ls = "saveCache 0 (rank CONFIG exMap) emptyStorage"
      and mgr' = "\<lparr> apiBase = ''https://v3.football.api-sports.io'', cache = None \<rparr>"
      and ls' = emptyStorage and net = exNetDown and now = 1000000000000
      and ls'' = emptyStorage] d e
  have 2: "fst (getAllPlayers CONFIG \<lparr> apiBase = ''https://v3.football.api-sports.io'', cache = None \<rparr>
        exNetDown 1000000000000 emptyStorage)
      = Inr (rank CONFIG [(Val 1, exRecord ''LA LIGA'' 1 10 5 20), (Val 2, exRecord ''LA LIGA'' 2 8 1 20)])"
    by simp
  from a c 1 d e 2 show ?thesis by blast
qed

subsection \<open>Failed fetches\<close>

lemma processLeague_failed:
  assumes "fetchFromAPI cfg net ''players/topscorers'' lid = Inl e"
    and "fetchFromAPI cfg net ''players/topassists'' lid = Inl e'"
  shows "processLeague cfg net m (nm, lid) = Inr m"
  using assms
  by (simp add: processLeague_def getTopScorers_def getTopAssists_def mergeLeague_def)

text \<open>
  C8: when \<open>fetchFromAPI\<close> throws (the request is rejected, the status is not ok or the body
  is not JSON), \<open>getTopScorers\<close> and \<open>getTopAssists\<close> return the empty array; a league both
  of whose fetches fail leaves the Map as it is, and the run over all leagues gives what
  the run over the other leagues gives.
\<close>

theorem failed_fetch_is_empty_feed:
  "(fetchFromAPI cfg net ''players/topscorers'' lid = Inl e \<longrightarrow>
      getTopScorers cfg net lid = Some [])
   \<and> (fetchFromAPI cfg net ''players/topassists'' lid = Inl e' \<longrightarrow>
      getTopAssists cfg net lid = Some [])
   \<and> (fetchFromAPI cfg net ''players/topscorers'' lid = Inl e
        \<and> fetchFromAPI cfg net ''players/topassists'' lid = Inl e' \<longrightarrow>
      processLeague cfg net m (nm, lid) = Inr m
      \<and> aggregate cfg net (pre @ (nm, lid) # post) = aggregate cfg net (pre @ post))"
proof -
  have "aggregate cfg net (pre @ (nm, lid) # post) = aggregate cfg net (pre @ post)"
    if "fetchFromAPI cfg net ''players/topscorers'' lid = Inl e"
      and "fetchFromAPI cfg net ''players/topassists'' lid = Inl e'"
    using processLeague_failed [OF that]
    by (simp add: aggregate_def forEach_append split: sum.splits)
  then show ?thesis
    using processLeague_failed [of cfg net lid e e' m nm]
    by (simp add: getTopScorers_def getTopAssists_def)
qed

theorem failed_fetch_is_empty_feed_witness:
  "fetchFromAPI CONFIG exNetDown ''players/topscorers'' 39 = Inl NetworkError
   \<and> fetchFromAPI CONFIG exNetDown ''players/topassists'' 39 = Inl NetworkError
   \<and> getTopScorers CONFIG exNetDown 39 = Some []
   \<and> getTopAssists CONFIG exNetDown 39 = Some []
   \<and> processLeague CONFIG exNetDown [] (''PREMIER_LEAGUE'', 39) = Inr []
   \<and> aggregate CONFIG exNetDown ([] @ (''PREMIER_LEAGUE'', 39) # [(''LA_LIGA'', 140)])
       = aggregate CONFIG exNetDown ([] @ [(''LA_LIGA'', 140)])
   \<and> aggregate CONFIG exNetDown ([] @ [(''LA_LIGA'', 140)])
       = Inr [(Val 1, exRecord ''LA LIGA'' 1 10 5 20), (Val 2, exRecord ''LA LIGA'' 2 8 1 20)]"
proof -
  have a: "fetchFromAPI CONFIG exNetDown ''players/topscorers'' 39 = Inl NetworkError"
    by (simp add: fetchFromAPI_def exNetDown_def)
  have b: "fetchFromAPI CONFIG exNetDown ''players/topassists'' 39 = Inl NetworkError"
    by (simp add: fetchFromAPI_def exNetDown_def)
  have c: "aggregate CONFIG exNetDown ([] @ [(''LA_LIGA'', 140)])
       = Inr [(Val 1, exRecord ''LA LIGA'' 1 10 5 20), (Val 2, exRecord ''LA LIGA'' 2 8 1 20)]"
    by code_simp
  from failed_fetch_is_empty_feed [where cfg = CONFIG and net = exNetDown and lid = 39
      and e = NetworkError and e' = NetworkError and m = "[]" and nm = "''PREMIER_LEAGUE''"
      and pre = "[]" and post = "[(''LA_LIGA'', 140)]"] a b c
  show ?thesis by blast
qed

subsection \<open>The API key check of initialize\<close>

text \<open>
  C9: \<open>initialize\<close> compares \<open>CONFIG.API_KEY\<close> with another text than the placeholder that
  \<open>CONFIG\<close> ships with and that the warning names. With the key left at the placeholder
  (or empty) the warning is not shown: the aggregation runs, and the page shows the cards
  or the general error message. With the key equal to the compared text the warning is
  shown and nothing is fetched.
\<close>

theorem unset_key_runs_aggregation:
  "API_KEY CONFIG = ''YOUR_API_KEY_HERE''
   \<and> fst (initialize CONFIG mgr net now ls (Some g)) \<noteq> Some APIKeyWarning
   \<and> fst (initialize CONFIG mgr net now ls (Some g)) =
       (case fst (getAllPlayers CONFIG mgr net now ls) of
          Inr ps \<Rightarrow> Some (Cards ps)
        | Inl e \<Rightarrow> Some ErrorMessage)
   \<and> fst (initialize (CONFIG\<lparr> API_KEY := [] \<rparr>) mgr net now ls (Some g)) \<noteq> Some APIKeyWarning
   \<and> initialize (CONFIG\<lparr> API_KEY := ''57f67398e65a9dd967d70fe6ecfd76df'' \<rparr>) mgr net now ls (Some g)
       = (Some APIKeyWarning, ls)"
  by (auto simp: initialize_def CONFIG_def updateWebsite_def showError_def showAPIKeyWarning_def
        split: prod.splits sum.splits)

lemma unset_key_example:
  "initialize CONFIG (newManager CONFIG 0 emptyStorage)
     (feedNet (\<lambda>l. []) (\<lambda>l. [])) 0 emptyStorage (Some StaticCards)
   = (Some (Cards []), emptyStorage\<lparr> ls_item := Some (Snapshot \<lparr> timestamp = 0, players = Some [] \<rparr>) \<rparr>)"
  by code_simp

end
